theory Spec2Isabelle
  imports Complex_Main "HOL-Library.Word" "HOL-Library.Sublist"
begin

section \<open>The transcoder pool simulator of eth/client.go\<close>

subsection \<open>Data\<close>

text \<open>
  An \<^verbatim>\<open>ethcommon.Address\<close> is an array of 20 bytes; the zero value
  \<^verbatim>\<open>ethcommon.Address{}\<close> is the null address. A \<^verbatim>\<open>*big.Int\<close> is an unbounded integer.
\<close>

type_synonym address = "160 word"

definition nullAddress :: address where
  "nullAddress = 0"

text \<open>
  \<^verbatim>\<open>lpTypes.Transcoder\<close>: the simulator reads and writes only the two fields below; the
  entry it appends leaves every other field at its zero value.
\<close>

record Transcoder =
  Address :: address
  DelegatedStake :: int

record TranscoderPoolHints =
  PosPrev :: address
  PosNext :: address

text \<open>
  A Go slice \<^verbatim>\<open>[]*lpTypes.Transcoder\<close> is a window on an underlying array. \<open>elems\<close> are
  the cells inside the window (its length), \<open>spare\<close> the cells of the array after the
  window up to its capacity. Every slice of the simulator starts at the first cell of
  its array. The cells are taken to hold valid pointers to transcoders that nobody writes
  through, so a cell is modelled by the value it points to; the cells of \<open>spare\<close> are
  never read by the code before it overwrites them.
\<close>

record slice =
  elems :: "Transcoder list"
  spare :: "Transcoder list"

definition cells :: "slice \<Rightarrow> Transcoder list" where
  "cells s = elems s @ spare s"

definition cap :: "slice \<Rightarrow> nat" where
  "cap s = length (cells s)"

text \<open>The run-time panics of Go that indexing, slicing and \<^verbatim>\<open>big.Int\<close> division can raise.\<close>

datatype panic = IndexOutOfRange int nat | SliceBoundsOutOfRange int nat | DivisionByZero

subsection \<open>Go's slice primitives\<close>

text \<open>\<^verbatim>\<open>xs[i]\<close> on the elements of a slice: panics unless \<open>0 \<le> i < len\<close>.\<close>

definition index :: "Transcoder list \<Rightarrow> int \<Rightarrow> panic + Transcoder" where
  "index xs i =
     (if 0 \<le> i \<and> i < int (length xs) then Inr (xs ! nat i)
      else Inl (IndexOutOfRange i (length xs)))"

text \<open>\<^verbatim>\<open>s[:j]\<close>: the same array, a window of length \<open>j\<close>; panics unless \<open>0 \<le> j \<le> cap\<close>.\<close>

definition slice_to :: "slice \<Rightarrow> int \<Rightarrow> panic + slice" where
  "slice_to s j =
     (if 0 \<le> j \<and> j \<le> int (cap s)
      then Inr \<lparr>elems = take (nat j) (cells s), spare = drop (nat j) (cells s)\<rparr>
      else Inl (SliceBoundsOutOfRange j (cap s)))"

text \<open>
  \<^verbatim>\<open>s[j:]\<close>, used only as the source of a variadic append, so only its elements are
  returned; panics unless \<open>0 \<le> j \<le> len\<close>.
\<close>

definition slice_from :: "slice \<Rightarrow> int \<Rightarrow> panic + Transcoder list" where
  "slice_from s j =
     (if 0 \<le> j \<and> j \<le> int (length (elems s))
      then Inr (drop (nat j) (elems s))
      else Inl (SliceBoundsOutOfRange j (length (elems s))))"

text \<open>
  \<^verbatim>\<open>append(s, xs...)\<close>. When the capacity suffices the new elements are written into the
  array of \<open>s\<close>, over its spare cells, and the result shares that array (the flag is
  \<open>False\<close>). Otherwise a new array is allocated (the flag is \<open>True\<close>) and the array of
  \<open>s\<close> is left alone; the capacity of the new array is implementation-defined and never
  inspected here, so it is modelled as exact.
\<close>

definition append_slice :: "slice \<Rightarrow> Transcoder list \<Rightarrow> slice \<times> bool" where
  "append_slice s xs =
     (if length xs \<le> length (spare s)
      then (\<lparr>elems = elems s @ xs, spare = drop (length xs) (spare s)\<rparr>, False)
      else (\<lparr>elems = elems s @ xs, spare = []\<rparr>, True))"

text \<open>
  \<^verbatim>\<open>sort.SliceStable(s, less)\<close> of the Go standard library sorts the elements of \<open>s\<close> in
  place and keeps the original order of elements that \<^verbatim>\<open>less\<close> does not separate. It is
  modelled by a stable insertion sort with the closure \<^verbatim>\<open>less\<close> of the caller.
\<close>

fun insert_stable :: "('a \<Rightarrow> 'a \<Rightarrow> bool) \<Rightarrow> 'a \<Rightarrow> 'a list \<Rightarrow> 'a list" where
  "insert_stable lt x [] = [x]"
| "insert_stable lt x (y # ys) =
     (if lt y x then y # insert_stable lt x ys else x # y # ys)"

definition stable_sort :: "('a \<Rightarrow> 'a \<Rightarrow> bool) \<Rightarrow> 'a list \<Rightarrow> 'a list" where
  "stable_sort lt xs = foldr (insert_stable lt) xs []"

definition SliceStable :: "(Transcoder \<Rightarrow> Transcoder \<Rightarrow> bool) \<Rightarrow> slice \<Rightarrow> slice" where
  "SliceStable lt s = s\<lparr>elems := stable_sort lt (elems s)\<rparr>"

text \<open>
  What a caller that still holds a window of length \<open>n\<close> on the array of \<open>s\<close> sees.
\<close>

definition view :: "nat \<Rightarrow> slice \<Rightarrow> slice" where
  "view n s = \<lparr>elems = take n (cells s), spare = drop n (cells s)\<rparr>"

subsection \<open>findTranscoderHints\<close>

text \<open>
  The loop of \<^verbatim>\<open>findTranscoderHints\<close>: \<open>ts\<close> is the whole list, \<open>i\<close> the loop index and
  the third argument the elements from index \<open>i\<close> on. The loop has no \<^verbatim>\<open>break\<close>: every
  entry of the target's address updates \<open>hints\<close>.
\<close>

fun findLoop :: "address \<Rightarrow> Transcoder list \<Rightarrow> nat \<Rightarrow> Transcoder list \<Rightarrow>
    TranscoderPoolHints \<Rightarrow> panic + TranscoderPoolHints" where
  "findLoop del ts i [] hints = Inr hints"
| "findLoop del ts i (t # rest) hints =
     (if Address t = del \<and> length ts > 1 then
        (if i = 0 then
           (case index ts (int i + 1) of
              Inl p \<Rightarrow> Inl p
            | Inr nxt \<Rightarrow> findLoop del ts (i + 1) rest (hints\<lparr>PosNext := Address nxt\<rparr>))
         else if int i = int (length ts) - 1 then
           (case index ts (int i - 1) of
              Inl p \<Rightarrow> Inl p
            | Inr prv \<Rightarrow> findLoop del ts (i + 1) rest (hints\<lparr>PosPrev := Address prv\<rparr>))
         else
           (case index ts (int i + 1) of
              Inl p \<Rightarrow> Inl p
            | Inr nxt \<Rightarrow>
                (case index ts (int i - 1) of
                   Inl p \<Rightarrow> Inl p
                 | Inr prv \<Rightarrow>
                     findLoop del ts (i + 1) rest
                       (hints\<lparr>PosNext := Address nxt, PosPrev := Address prv\<rparr>))))
      else findLoop del ts (i + 1) rest hints)"

definition emptyHints :: TranscoderPoolHints where
  "emptyHints = \<lparr>PosPrev = nullAddress, PosNext = nullAddress\<rparr>"

definition findTranscoderHints :: "address \<Rightarrow> Transcoder list \<Rightarrow> panic + TranscoderPoolHints" where
  "findTranscoderHints del ts = findLoop del ts 0 ts emptyHints"

subsection \<open>simulateTranscoderPoolUpdate\<close>

text \<open>The index of the first entry with address \<open>del\<close>, counting from \<open>i\<close>.\<close>

fun firstIndex :: "address \<Rightarrow> nat \<Rightarrow> Transcoder list \<Rightarrow> nat option" where
  "firstIndex del i [] = None"
| "firstIndex del i (t # rest) =
     (if Address t = del then Some i else firstIndex del (i + 1) rest)"

text \<open>
  The first loop: at the first entry of the target,
  \<^verbatim>\<open>transcoders = append(transcoders[:i], transcoders[i+1:]...)\<close> and \<^verbatim>\<open>break\<close>. The
  append moves the later elements one cell down inside the caller's array.
\<close>

definition removeTarget :: "address \<Rightarrow> slice \<Rightarrow> panic + slice" where
  "removeTarget del s =
     (case firstIndex del 0 (elems s) of
        None \<Rightarrow> Inr s
      | Some i \<Rightarrow>
          (case slice_to s (int i) of
             Inl p \<Rightarrow> Inl p
           | Inr front \<Rightarrow>
               (case slice_from s (int i + 1) of
                  Inl p \<Rightarrow> Inl p
                | Inr back \<Rightarrow> Inr (fst (append_slice front back)))))"

text \<open>The closure given to \<^verbatim>\<open>sort.SliceStable\<close>: \<^verbatim>\<open>a.DelegatedStake.Cmp(b.DelegatedStake) > 0\<close>.\<close>

definition stakeLess :: "Transcoder \<Rightarrow> Transcoder \<Rightarrow> bool" where
  "stakeLess a b = (DelegatedStake a > DelegatedStake b)"

text \<open>
  The body of \<^verbatim>\<open>simulateTranscoderPoolUpdate\<close> up to its last line: the slice handed to
  \<^verbatim>\<open>findTranscoderHints\<close>, paired with the caller's slice as the call leaves it. The
  caller's slice keeps its length; its array is the one the function worked in until
  an append had to allocate.
\<close>

definition simulatedPool :: "address \<Rightarrow> int \<Rightarrow> slice \<Rightarrow> bool \<Rightarrow> panic + (slice \<times> slice)" where
  "simulatedPool del newStake transcoders isFull =
     (case removeTarget del transcoders of
        Inl p \<Rightarrow> Inl p
      | Inr removed \<Rightarrow>
          (let n = length (elems transcoders);
               (inserted, fresh) = append_slice removed [\<lparr>Address = del, DelegatedStake = newStake\<rparr>];
               ordered = SliceStable stakeLess inserted;
               caller = (if fresh then view n removed else view n ordered)
           in if isFull then
                (case slice_to ordered (int (length (elems ordered)) - 1) of
                   Inl p \<Rightarrow> Inl p
                 | Inr evicted \<Rightarrow> Inr (evicted, caller))
              else Inr (ordered, caller)))"

definition simulateTranscoderPoolUpdate ::
    "address \<Rightarrow> int \<Rightarrow> slice \<Rightarrow> bool \<Rightarrow> panic + (TranscoderPoolHints \<times> slice)" where
  "simulateTranscoderPoolUpdate del newStake transcoders isFull =
     (case simulatedPool del newStake transcoders isFull of
        Inl p \<Rightarrow> Inl p
      | Inr (final, caller) \<Rightarrow>
          (case findTranscoderHints del (elems final) of
             Inl p \<Rightarrow> Inl p
           | Inr hints \<Rightarrow> Inr (hints, caller)))"

section \<open>The staking operations and the wait for a confirmation\<close>

subsection \<open>Errors, transactions and receipts\<close>

text \<open>
  A Go \<^verbatim>\<open>error\<close> is modelled by its message, the string that \<^verbatim>\<open>err.Error()\<close>
  returns: the code compares errors by that string. \<^verbatim>\<open>errors.Wrapf(err, msg)\<close> of
  \<^verbatim>\<open>github.com/pkg/errors\<close> prefixes the message with \<open>msg\<close> and a colon.
\<close>

type_synonym error = string

definition Wrapf :: "error \<Rightarrow> string \<Rightarrow> error" where
  "Wrapf e msg = msg @ '': '' @ e"

text \<open>
  A transaction hash is 32 bytes. Of a \<^verbatim>\<open>types.Transaction\<close> the code uses the hash only.
  A \<^verbatim>\<open>transactionReceipt\<close> is declared elsewhere in the package; it has the fields that
  \<^verbatim>\<open>CheckTx\<close> reads.
\<close>

type_synonym hash = "256 word"

record Transaction =
  Hash :: hash

record transactionReceipt =
  originTxHash :: hash
  err :: "error option"
  Status :: "64 word"
  TxHash :: hash

text \<open>
  What one iteration of the \<^verbatim>\<open>select\<close> in \<^verbatim>\<open>CheckTx\<close> receives: a value from the error
  channel of the subscription (possibly \<^verbatim>\<open>nil\<close>) or a receipt from the receipt channel.
\<close>

datatype event = ErrEvent "error option" | ReceiptEvent transactionReceipt

text \<open>
  \<^verbatim>\<open>CheckTx\<close> loops for ever until it returns. It is run on the list of the events that
  its \<^verbatim>\<open>select\<close> receives, in that order: \<open>Done r\<close> when it returns \<open>r\<close> (\<open>None\<close>
  is \<^verbatim>\<open>nil\<close>), \<open>Waiting\<close> when the events are used up and it still blocks. The first
  argument is \<^verbatim>\<open>Hash.Hex\<close> of go-ethereum, which prints a hash.
\<close>

datatype wait = Waiting | Done "error option"

fun CheckTx :: "(hash \<Rightarrow> string) \<Rightarrow> Transaction \<Rightarrow> event list \<Rightarrow> wait" where
  "CheckTx hex tx [] = Waiting"
| "CheckTx hex tx (ErrEvent e # later) = Done e"
| "CheckTx hex tx (ReceiptEvent receipt # later) =
     (if Hash tx = originTxHash receipt then
        (if err receipt \<noteq> None then Done (err receipt)
         else if Status receipt = 0 then
           Done (Some (''transaction failed txHash='' @ hex (TxHash receipt)))
         else Done None)
      else CheckTx hex tx later)"

subsection \<open>The chain as the client reads it\<close>

text \<open>
  Modelled from the spec: \<^verbatim>\<open>lpTypes.DelegatorStatus\<close> and \<^verbatim>\<open>lpTypes.ParseDelegatorStatus\<close>
  are declared outside this file. The spec gives a delegator the status Pending, Bonded or
  Unbonded; the parser is a field of \<open>chain\<close> below.
\<close>

datatype DelegatorStatus = Pending | Bonded | Unbonded

text \<open>
  \<open>DelegatorInfo\<close> is what the contract binding returns for a delegator, \<open>Delegator\<close>
  is \<^verbatim>\<open>lpTypes.Delegator\<close>: the same fields and four more. The primed names are the
  fields \<^verbatim>\<open>Address\<close>, \<^verbatim>\<open>PendingStake\<close>, \<^verbatim>\<open>PendingFees\<close> and \<^verbatim>\<open>Status\<close>.
\<close>

record DelegatorInfo =
  BondedAmount :: int
  Fees :: int
  DelegateAddress :: address
  DelegatedAmount :: int
  StartRound :: int
  LastClaimRound :: int
  NextUnbondingLockId :: int

record Delegator = DelegatorInfo +
  Address' :: address
  PendingStake' :: int
  PendingFees' :: int
  Status' :: DelegatorStatus

record TokenPools =
  RewardPool :: int
  FeePool :: int
  TotalStake :: int
  ClaimableStake :: int

text \<open>
  Every call of a contract binding or of the account manager is a field of \<open>chain\<close>: what
  the call returns, as a function of its arguments, \<open>Inl\<close> for the error. \<open>account\<close> is
  \<^verbatim>\<open>c.Account().Address\<close>, \<open>receipts tx\<close> the events that \<^verbatim>\<open>CheckTx(tx)\<close> receives.
  \<^verbatim>\<open>TranscoderPool\<close> walks the linked list of the contract and is read here as its result,
  a slice built by appending, which as a rule has spare capacity. A read repeated within one
  operation returns the same result: the chain does not move while an operation runs.
\<close>

record chain =
  account :: address
  bondingManagerAddr :: address
  Allowance :: "address \<Rightarrow> address \<Rightarrow> error + int"
  Approve :: "address \<Rightarrow> int \<Rightarrow> error + Transaction"
  receipts :: "Transaction \<Rightarrow> event list"
  Hex :: "hash \<Rightarrow> string"
  TranscoderPool :: "error + slice"
  GetTranscoderPoolMaxSize :: "error + int"
  Session_GetDelegator :: "address \<Rightarrow> error + DelegatorInfo"
  DelegatorStatus :: "address \<Rightarrow> error + 8 word"
  ParseDelegatorStatus :: "8 word \<Rightarrow> error + DelegatorStatus"
  CurrentRound :: "error + int"
  PendingStake :: "address \<Rightarrow> int \<Rightarrow> error + int"
  PendingFees :: "address \<Rightarrow> int \<Rightarrow> error + int"
  TranscoderTotalStake :: "address \<Rightarrow> error + int"
  Session_GetTranscoderEarningsPoolForRound :: "address \<Rightarrow> int \<Rightarrow> error + TokenPools"
  CurrentMintableTokens :: "error + int"
  GetTotalBonded :: "error + int"

text \<open>
  The transactions the operations submit, and how an operation ends: \<open>Failed sent e\<close>
  returns the error \<open>e\<close> after submitting \<open>sent\<close>; \<open>Submitted sent t\<close> submits \<open>t\<close>
  as its last step, after \<open>sent\<close>, and returns what that submission returns;
  \<open>Blocked sent\<close> never returns, waiting in \<^verbatim>\<open>CheckTx\<close>; \<open>Panicked p\<close> panics.
\<close>

datatype call =
    ApproveCall address int
  | BondWithHintCall int address address address address address
  | RewardWithHintCall address address

datatype outcome =
    Failed "call list" error
  | Submitted "call list" call
  | Blocked "call list"
  | Panicked panic

text \<open>
  \<^verbatim>\<open>big.Int.Int64\<close> returns the low 64 bits as a signed integer. \<^verbatim>\<open>big.Int.Div\<close> is
  Euclidean division (the remainder is never negative) and panics on a zero divisor. The
  length of a slice is a Go \<^verbatim>\<open>int\<close> of 64 bits, which no slice length overflows.
\<close>

definition Int64 :: "int \<Rightarrow> int" where
  "Int64 x = sint (word_of_int x :: 64 word)"

definition Div :: "int \<Rightarrow> int \<Rightarrow> int option" where
  "Div x y = (if y = 0 then None else if 0 < y then Some (x div y) else Some (- (x div (- y))))"

subsection \<open>GetDelegator\<close>

definition GetDelegator :: "chain \<Rightarrow> address \<Rightarrow> error + Delegator" where
  "GetDelegator c addr =
     (case Session_GetDelegator c addr of
        Inl e \<Rightarrow> Inl e
      | Inr dInfo \<Rightarrow>
     (case DelegatorStatus c addr of
        Inl e \<Rightarrow> Inl e
      | Inr dStatus \<Rightarrow>
     (case ParseDelegatorStatus c dStatus of
        Inl e \<Rightarrow> Inl e
      | Inr status \<Rightarrow>
     (case CurrentRound c of
        Inl e \<Rightarrow> Inl e
      | Inr currentRound \<Rightarrow>
     (case (case PendingStake c addr currentRound of
              Inl e \<Rightarrow> if e = ''abi: unmarshalling empty output'' then Inr (- 1) else Inl e
            | Inr v \<Rightarrow> Inr v) of
        Inl e \<Rightarrow> Inl e
      | Inr pendingStake \<Rightarrow>
     (case (case PendingFees c addr currentRound of
              Inl e \<Rightarrow> if e = ''abi: unmarshalling empty output'' then Inr (- 1) else Inl e
            | Inr v \<Rightarrow> Inr v) of
        Inl e \<Rightarrow> Inl e
      | Inr pendingFees \<Rightarrow>
          Inr \<lparr>BondedAmount = BondedAmount dInfo,
               Fees = Fees dInfo,
               DelegateAddress = DelegateAddress dInfo,
               DelegatedAmount = DelegatedAmount dInfo,
               StartRound = StartRound dInfo,
               LastClaimRound = LastClaimRound dInfo,
               NextUnbondingLockId = NextUnbondingLockId dInfo,
               Address' = addr,
               PendingStake' = pendingStake,
               PendingFees' = pendingFees,
               Status' = status\<rparr>))))))"

subsection \<open>Reward\<close>

definition GetTranscoderEarningsPoolForRound :: "chain \<Rightarrow> address \<Rightarrow> int \<Rightarrow> error + TokenPools" where
  "GetTranscoderEarningsPoolForRound c addr round' =
     (case Session_GetTranscoderEarningsPoolForRound c addr round' of
        Inl e \<Rightarrow> Inl e
      | Inr tp \<Rightarrow>
          Inr \<lparr>RewardPool = RewardPool tp, FeePool = FeePool tp, TotalStake = TotalStake tp,
               ClaimableStake = ClaimableStake tp\<rparr>)"

definition Reward :: "chain \<Rightarrow> outcome" where
  "Reward c =
     (let addr = account c in
      case CurrentRound c of
        Inl e \<Rightarrow> Failed [] e
      | Inr currentRound \<Rightarrow>
     (case GetTranscoderEarningsPoolForRound c (account c) currentRound of
        Inl e \<Rightarrow> Failed [] e
      | Inr ep \<Rightarrow>
     (case CurrentMintableTokens c of
        Inl e \<Rightarrow> Failed [] (Wrapf e ''unable to get current mintable tokens'')
      | Inr mintable \<Rightarrow>
     (case GetTotalBonded c of
        Inl e \<Rightarrow> Failed [] (Wrapf e ''unable to get total bonded'')
      | Inr totalBonded \<Rightarrow>
          if totalBonded = 0 then Failed [] ''no rewards to be minted''
          else
     (case Div (mintable * TotalStake ep) totalBonded of
        None \<Rightarrow> Panicked DivisionByZero
      | Some reward \<Rightarrow>
     (case TranscoderPool c of
        Inl e \<Rightarrow> Failed [] (Wrapf e ''unable to get transcoder pool'')
      | Inr transcoders \<Rightarrow>
     (case GetTranscoderPoolMaxSize c of
        Inl e \<Rightarrow> Failed [] (Wrapf e ''unable to get transcoder pool max size'')
      | Inr maxSize \<Rightarrow>
     (case simulateTranscoderPoolUpdate addr (reward + TotalStake ep) transcoders
              (int (length (elems transcoders)) = Int64 maxSize) of
        Inl p \<Rightarrow> Panicked p
      | Inr (hints, _) \<Rightarrow>
          Submitted [] (RewardWithHintCall (PosPrev hints) (PosNext hints))))))))))"

subsection \<open>Bond\<close>

text \<open>
  The first step of \<^verbatim>\<open>Bond\<close>: when the allowance is below the amount
  (\<^verbatim>\<open>allowance.Cmp(amount) == -1\<close>), approve the amount and wait for the approval to be
  mined. The result is the list of the transactions submitted so far, or how \<^verbatim>\<open>Bond\<close>
  ends here.
\<close>

definition approveStep :: "chain \<Rightarrow> int \<Rightarrow> int \<Rightarrow> outcome + call list" where
  "approveStep c allowance amount =
     (if allowance < amount then
        (case Approve c (bondingManagerAddr c) amount of
           Inl e \<Rightarrow> Inl (Failed [ApproveCall (bondingManagerAddr c) amount] e)
         | Inr tx \<Rightarrow>
             (case CheckTx (Hex c) tx (receipts c tx) of
                Waiting \<Rightarrow> Inl (Blocked [ApproveCall (bondingManagerAddr c) amount])
              | Done (Some e) \<Rightarrow> Inl (Failed [ApproveCall (bondingManagerAddr c) amount] e)
              | Done None \<Rightarrow> Inr [ApproveCall (bondingManagerAddr c) amount]))
      else Inr [])"

text \<open>
  The block of \<^verbatim>\<open>Bond\<close> for a caller that switches delegate. It yields the amount to
  bond, the hints for the old delegate and the slice \<^verbatim>\<open>transcoders\<close> as the simulation
  leaves it: \<^verbatim>\<open>Bond\<close> passes the same slice to both simulations.
\<close>

definition switchDelegate ::
    "chain \<Rightarrow> call list \<Rightarrow> address \<Rightarrow> address \<Rightarrow> Delegator \<Rightarrow> int \<Rightarrow> slice \<Rightarrow> bool \<Rightarrow>
     outcome + (int \<times> TranscoderPoolHints \<times> slice)" where
  "switchDelegate c sent sender to delegator amount transcoders isFull =
     (if DelegateAddress delegator \<noteq> to \<and> DelegateAddress delegator \<noteq> nullAddress then
        (case CurrentRound c of
           Inl e \<Rightarrow> Inl (Failed sent e)
         | Inr currentRound \<Rightarrow>
        (case PendingStake c sender currentRound of
           Inl e \<Rightarrow> Inl (Failed sent e)
         | Inr delegatorTotalStake \<Rightarrow>
        (case TranscoderTotalStake c (DelegateAddress delegator) of
           Inl e \<Rightarrow> Inl (Failed sent e)
         | Inr totalBonded \<Rightarrow>
        (case simulateTranscoderPoolUpdate (DelegateAddress delegator)
                (totalBonded - delegatorTotalStake) transcoders isFull of
           Inl p \<Rightarrow> Inl (Panicked p)
         | Inr (oldHints, transcoders') \<Rightarrow>
             Inr (delegatorTotalStake + amount, oldHints, transcoders')))))
      else Inr (amount, emptyHints, transcoders))"

definition Bond :: "chain \<Rightarrow> int \<Rightarrow> address \<Rightarrow> outcome" where
  "Bond c amount to =
     (let sender = account c in
      case Allowance c sender (bondingManagerAddr c) of
        Inl e \<Rightarrow> Failed [] e
      | Inr allowance \<Rightarrow>
     (case approveStep c allowance amount of
        Inl stopped \<Rightarrow> stopped
      | Inr sent \<Rightarrow>
     (case TranscoderPool c of
        Inl e \<Rightarrow> Failed sent (Wrapf e ''unable to get transcoder pool'')
      | Inr transcoders \<Rightarrow>
     (case GetTranscoderPoolMaxSize c of
        Inl e \<Rightarrow> Failed sent (Wrapf e ''unable to get transcoder pool max size'')
      | Inr maxSize \<Rightarrow>
     (case GetDelegator c sender of
        Inl e \<Rightarrow> Failed sent (Wrapf e ''unable to get delegator'')
      | Inr delegator \<Rightarrow>
     (let isFull = (int (length (elems transcoders)) = Int64 maxSize) in
      case switchDelegate c sent sender to delegator amount transcoders isFull of
        Inl stopped \<Rightarrow> stopped
      | Inr (amount', oldHints, transcoders') \<Rightarrow>
     (case TranscoderTotalStake c to of
        Inl e \<Rightarrow> Failed sent e
      | Inr totalBonded \<Rightarrow>
     (case simulateTranscoderPoolUpdate to (totalBonded + amount') transcoders' isFull of
        Inl p \<Rightarrow> Panicked p
      | Inr (newHints, _) \<Rightarrow>
          Submitted sent
            (BondWithHintCall amount' to (PosPrev oldHints) (PosNext oldHints)
               (PosPrev newHints) (PosNext newHints))))))))))"

section \<open>Notions used in the statements\<close>

text \<open>
  The steps of the simulator on plain lists: the list without the first entry of the
  target, that list with the new entry appended and sorted, and the list after the eviction.
\<close>

definition withoutTarget :: "address \<Rightarrow> Transcoder list \<Rightarrow> Transcoder list" where
  "withoutTarget del xs =
     (case firstIndex del 0 xs of None \<Rightarrow> xs | Some i \<Rightarrow> take i xs @ drop (i + 1) xs)"

definition resorted :: "address \<Rightarrow> int \<Rightarrow> Transcoder list \<Rightarrow> Transcoder list" where
  "resorted del newStake xs =
     stable_sort stakeLess (withoutTarget del xs @ [\<lparr>Address = del, DelegatedStake = newStake\<rparr>])"

definition simulatedList :: "address \<Rightarrow> int \<Rightarrow> Transcoder list \<Rightarrow> bool \<Rightarrow> Transcoder list" where
  "simulatedList del newStake xs isFull =
     (if isFull then butlast (resorted del newStake xs) else resorted del newStake xs)"

text \<open>The target has an entry in the list.\<close>

definition present :: "address \<Rightarrow> Transcoder list \<Rightarrow> bool" where
  "present del xs = (del \<in> set (map Address xs))"

text \<open>The caller's slice after a call of the simulator.\<close>

definition callerAfter :: "address \<Rightarrow> int \<Rightarrow> slice \<Rightarrow> slice" where
  "callerAfter del newStake s =
     (if \<not> present del (elems s) \<and> spare s = [] then s
      else \<lparr>elems = take (length (elems s)) (resorted del newStake (elems s)),
            spare = drop (length (elems s)) (resorted del newStake (elems s))
                    @ drop (length (resorted del newStake (elems s))) (cells s) \<rparr>)"

text \<open>The hints of a target with the entries \<open>pre\<close> before it and \<open>post\<close> after it.\<close>

definition placement :: "Transcoder list \<Rightarrow> Transcoder list \<Rightarrow> TranscoderPoolHints" where
  "placement pre post =
     (if pre = [] \<and> post = [] then emptyHints
      else if pre = [] then \<lparr>PosPrev = nullAddress, PosNext = Address (hd post)\<rparr>
      else if post = [] then \<lparr>PosPrev = Address (last pre), PosNext = nullAddress\<rparr>
      else \<lparr>PosPrev = Address (last pre), PosNext = Address (hd post)\<rparr>)"

text \<open>
  A list sorted descending by stake; the entry the simulator appends; the entries of a
  given stake, in the order of the list; the number of entries of an address.
\<close>

definition descending :: "Transcoder list \<Rightarrow> bool" where
  "descending xs = sorted_wrt (\<lambda>a b. DelegatedStake a \<ge> DelegatedStake b) xs"

definition targetEntry :: "address \<Rightarrow> int \<Rightarrow> Transcoder" where
  "targetEntry del newStake = \<lparr>Address = del, DelegatedStake = newStake\<rparr>"

definition sameStake :: "int \<Rightarrow> Transcoder list \<Rightarrow> Transcoder list" where
  "sameStake k xs = filter (\<lambda>t. DelegatedStake t = k) xs"

definition occurrences :: "address \<Rightarrow> Transcoder list \<Rightarrow> nat" where
  "occurrences del xs = length (filter (\<lambda>t. Address t = del) xs)"

text \<open>
  The error of a pending-stake or pending-fees read for an account without a checkpoint,
  and the events that \<^verbatim>\<open>CheckTx\<close> discards: receipts of other transactions.
\<close>

definition noCheckpoint :: error where
  "noCheckpoint = ''abi: unmarshalling empty output''"

definition otherReceipt :: "Transaction \<Rightarrow> event \<Rightarrow> bool" where
  "otherReceipt tx ev =
     (case ev of ErrEvent e \<Rightarrow> False | ReceiptEvent receipt \<Rightarrow> Hash tx \<noteq> originTxHash receipt)"

text \<open>
  Concrete data: the pool A:100, B:80, C:50 of the spec's scenario A (A, B, C and the
  newcomer D are the addresses 10, 11, 12 and 13), a pool with two entries of one stake,
  and a chain on which every read succeeds.
\<close>

definition scenarioA :: slice where
  "scenarioA = \<lparr>elems = [\<lparr>Address = 10, DelegatedStake = 100\<rparr>,
                          \<lparr>Address = 11, DelegatedStake = 80\<rparr>,
                          \<lparr>Address = 12, DelegatedStake = 50\<rparr>], spare = []\<rparr>"

definition tiedPool :: slice where
  "tiedPool = \<lparr>elems = [\<lparr>Address = 10, DelegatedStake = 100\<rparr>,
                         \<lparr>Address = 11, DelegatedStake = 80\<rparr>,
                         \<lparr>Address = 12, DelegatedStake = 80\<rparr>], spare = []\<rparr>"

definition chain0 :: chain where
  "chain0 =
     \<lparr>account = 1,
      bondingManagerAddr = 2,
      Allowance = (\<lambda>owner spender. Inr 1000),
      Approve = (\<lambda>spender amount. Inl ''not used''),
      receipts = (\<lambda>tx. []),
      Hex = (\<lambda>h. ''0x''),
      TranscoderPool = Inr scenarioA,
      GetTranscoderPoolMaxSize = Inr 3,
      Session_GetDelegator = (\<lambda>addr. Inr
        \<lparr>BondedAmount = 30, Fees = 0, DelegateAddress = 11, DelegatedAmount = 0,
         StartRound = 1, LastClaimRound = 6, NextUnbondingLockId = 0\<rparr>),
      DelegatorStatus = (\<lambda>addr. Inr 1),
      ParseDelegatorStatus = (\<lambda>s. Inr Bonded),
      CurrentRound = Inr 7,
      PendingStake = (\<lambda>addr r. Inr 30),
      PendingFees = (\<lambda>addr r. Inl ''abi: unmarshalling empty output''),
      TranscoderTotalStake = (\<lambda>addr. if addr = 11 then Inr 80 else Inr 50),
      Session_GetTranscoderEarningsPoolForRound = (\<lambda>addr r. Inr
        \<lparr>RewardPool = 0, FeePool = 0, TotalStake = 100, ClaimableStake = 100\<rparr>),
      CurrentMintableTokens = Inr 1000,
      GetTotalBonded = Inr 230\<rparr>"

definition delegator0 :: Delegator where
  "delegator0 =
     \<lparr>BondedAmount = 30, Fees = 0, DelegateAddress = 11, DelegatedAmount = 0,
      StartRound = 1, LastClaimRound = 6, NextUnbondingLockId = 0,
      Address' = 1, PendingStake' = 30, PendingFees' = - 1, Status' = Bonded\<rparr>"

text \<open>
  The same chain for the transcoder A as the account; with nothing bonded; and with a
  pending-stake read that fails for another reason.
\<close>

definition chain1 :: chain where
  "chain1 = chain0\<lparr>account := 10\<rparr>"

definition pools0 :: TokenPools where
  "pools0 = \<lparr>RewardPool = 0, FeePool = 0, TotalStake = 100, ClaimableStake = 100\<rparr>"

definition chain2 :: chain where
  "chain2 = chain1\<lparr>GetTotalBonded := Inr 0\<rparr>"

definition info0 :: DelegatorInfo where
  "info0 = \<lparr>BondedAmount = 30, Fees = 0, DelegateAddress = 11, DelegatedAmount = 0,
            StartRound = 1, LastClaimRound = 6, NextUnbondingLockId = 0\<rparr>"

definition chain3 :: chain where
  "chain3 = chain0\<lparr>PendingStake := (\<lambda>addr r. Inl ''execution reverted''),
                   PendingFees := (\<lambda>addr r. Inr 4)\<rparr>"

text \<open>A transaction, a receipt of another transaction and a receipt of its failure.\<close>

definition tx0 :: Transaction where
  "tx0 = \<lparr>Hash = 77\<rparr>"

definition foreign0 :: transactionReceipt where
  "foreign0 = \<lparr>originTxHash = 55, err = None, Status = 1, TxHash = 55\<rparr>"

definition failed0 :: transactionReceipt where
  "failed0 = \<lparr>originTxHash = 77, err = None, Status = 0, TxHash = 78\<rparr>"

section \<open>Properties of the simulator\<close>

lemma stable_sort_stake: "stable_sort stakeLess xs = sort_key (\<lambda>t. - DelegatedStake t) xs"
proof -
  have "insert_stable stakeLess x ys = insort_key (\<lambda>t. - DelegatedStake t) x ys" for x ys
    by (induction ys) (auto simp: stakeLess_def)
  then show ?thesis
    by (induction xs) (simp_all add: stable_sort_def)
qed

lemma firstIndex_None: "firstIndex del i xs = None \<longleftrightarrow> \<not> present del xs"
  by (induction xs arbitrary: i) (auto simp: present_def)

lemma firstIndex_Some:
  "firstIndex del i xs = Some j \<Longrightarrow> i \<le> j \<and> j - i < length xs \<and> Address (xs ! (j - i)) = del
     \<and> \<not> present del (take (j - i) xs)"
proof (induction xs arbitrary: i)
  case Nil
  then show ?case by simp
next
  case (Cons t rest)
  show ?case
  proof (cases "Address t = del")
    case True
    with Cons.prems show ?thesis by (simp add: present_def)
  next
    case False
    with Cons.prems have r: "firstIndex del (i + 1) rest = Some j" by simp
    from Cons.IH [OF r] have a: "i + 1 \<le> j" "j - (i + 1) < length rest"
      "Address (rest ! (j - (i + 1))) = del" "\<not> present del (take (j - (i + 1)) rest)"
      by auto
    from a(1) have e: "j - i = Suc (j - (i + 1))" by simp
    show ?thesis using a False unfolding e by (auto simp: present_def)
  qed
qed

lemma length_withoutTarget:
  "length (withoutTarget del xs) = (if present del xs then length xs - 1 else length xs)"
proof (cases "firstIndex del 0 xs")
  case None
  then show ?thesis using firstIndex_None [of del 0 xs] by (simp add: withoutTarget_def)
next
  case (Some i)
  from firstIndex_Some [OF Some] have "i < length xs" by simp
  moreover from Some have "present del xs" using firstIndex_None [of del 0 xs] by auto
  ultimately show ?thesis using Some by (simp add: withoutTarget_def)
qed

lemma removeTarget_eq:
  "removeTarget del s =
     Inr \<lparr>elems = withoutTarget del (elems s),
          spare = drop (length (withoutTarget del (elems s))) (cells s)\<rparr>"
proof (cases "firstIndex del 0 (elems s)")
  case None
  then show ?thesis by (simp add: removeTarget_def withoutTarget_def cells_def)
next
  case (Some i)
  from firstIndex_Some [OF Some] have i: "i < length (elems s)" by simp
  have len: "length (withoutTarget del (elems s)) = length (elems s) - 1"
    using Some i by (simp add: withoutTarget_def)
  have "take i (elems s @ spare s) = take i (elems s)" using i by simp
  moreover have "drop (length (elems s) - Suc i) (drop i (elems s @ spare s))
      = drop (length (elems s) - 1) (elems s @ spare s)"
    using i by (simp add: add.commute)
  moreover have "nat (int i + 1) = Suc i" by simp
  ultimately show ?thesis
    using Some i
    by (simp add: removeTarget_def slice_to_def slice_from_def append_slice_def cap_def
        cells_def withoutTarget_def len)
qed

lemma length_resorted:
  "length (resorted del newStake xs) = (if present del xs then length xs else length xs + 1)"
proof -
  have "present del xs \<Longrightarrow> 0 < length xs" by (auto simp: present_def)
  then show ?thesis
    by (auto simp: resorted_def stable_sort_stake length_withoutTarget)
qed

lemma resorted_nonempty: "resorted del newStake xs \<noteq> []"
  by (simp add: resorted_def stable_sort_stake flip: length_0_conv del: length_0_conv)

lemma simulatedPool_eq:
  "\<exists>sp. simulatedPool del newStake s isFull =
     Inr (\<lparr>elems = simulatedList del newStake (elems s) isFull, spare = sp\<rparr>,
          callerAfter del newStake s)"
proof -
  let ?w = "withoutTarget del (elems s)"
  let ?e = "\<lparr>Address = del, DelegatedStake = newStake\<rparr>"
  let ?r = "resorted del newStake (elems s)"
  let ?removed = "\<lparr>elems = ?w, spare = drop (length ?w) (cells s)\<rparr>"
  let ?sp = "drop (length ?r) (cells s)"
  let ?ordered = "\<lparr>elems = ?r, spare = ?sp\<rparr>"
  let ?n = "length (elems s)"
  have rm: "removeTarget del s = Inr ?removed" by (rule removeTarget_eq)
  have lw: "length ?w = (if present del (elems s) then ?n - 1 else ?n)"
    by (rule length_withoutTarget)
  have lr: "length ?r = Suc (length ?w)"
    by (simp add: resorted_def stable_sort_stake)
  have pos: "present del (elems s) \<Longrightarrow> 0 < ?n" by (auto simp: present_def)
  have r: "?r = stable_sort stakeLess (?w @ [?e])" by (simp add: resorted_def)
  have bl: "take (length ?r - 1) (?r @ sp) = butlast ?r" for sp
    by (simp add: butlast_conv_take)
  have full: "slice_to \<lparr>elems = ?r, spare = sp\<rparr> (int (length ?r) - 1)
      = Inr \<lparr>elems = butlast ?r, spare = drop (length ?r - 1) (?r @ sp)\<rparr>" for sp
    using bl [of sp] by (simp add: slice_to_def cap_def cells_def lr nat_diff_distrib)
  show ?thesis
  proof (cases "\<not> present del (elems s) \<and> spare s = []")
    case True
    then have w: "?w = elems s" using firstIndex_None [of del 0 "elems s"]
      by (simp add: withoutTarget_def)
    have ap: "append_slice ?removed [?e] = (\<lparr>elems = ?w @ [?e], spare = []\<rparr>, True)"
      using True by (simp add: append_slice_def w cells_def)
    have v: "view ?n ?removed = s" using True by (simp add: view_def cells_def w)
    show ?thesis
      using True full [of "[]"]
      by (cases isFull)
        (simp_all add: simulatedPool_def rm ap SliceStable_def r [symmetric] v callerAfter_def
          simulatedList_def Let_def)
  next
    case False
    then have room: "Suc (length ?w) \<le> length (cells s)"
      using pos by (cases "spare s") (auto simp: lw cells_def)
    have ap: "append_slice ?removed [?e] = (\<lparr>elems = ?w @ [?e], spare = ?sp\<rparr>, False)"
      using room by (simp add: append_slice_def lr)
    have n: "?n \<le> length ?r" using pos by (auto simp: lr lw)
    have v: "view ?n ?ordered = callerAfter del newStake s"
      using False n by (auto simp: view_def cells_def callerAfter_def)
    show ?thesis
      using full [of ?sp]
      by (cases isFull)
        (simp_all add: simulatedPool_def rm ap SliceStable_def r [symmetric] v
          simulatedList_def Let_def)
  qed
qed

lemma findLoop_total:
  "i + length rest = length ts \<Longrightarrow> \<exists>h'. findLoop del ts i rest h = Inr h'"
proof (induction rest arbitrary: i h)
  case Nil
  then show ?case by simp
next
  case (Cons t rest)
  from Cons.prems have n: "Suc i + length rest = length ts" by simp
  have step: "\<exists>h'. findLoop del ts (i + 1) rest g = Inr h'" for g
    using Cons.IH [of "i + 1" g] n by simp
  show ?case
  proof (cases "Address t = del \<and> length ts > 1")
    case False
    then show ?thesis using step [of h] by auto
  next
    case True
    show ?thesis
    proof (cases "i = 0")
      case True
      with \<open>Address t = del \<and> length ts > 1\<close> show ?thesis
        using step [of "h\<lparr>PosNext := Address (ts ! 1)\<rparr>"] by (simp add: index_def)
    next
      case False
      note nz = this
      show ?thesis
      proof (cases "int i = int (length ts) - 1")
        case True
        with nz \<open>Address t = del \<and> length ts > 1\<close> show ?thesis
          using step [of "h\<lparr>PosPrev := Address (ts ! nat (int i - 1))\<rparr>"] n
          by (simp add: index_def)
      next
        case False
        with n have "int i + 1 < int (length ts)" by auto
        with nz False \<open>Address t = del \<and> length ts > 1\<close> show ?thesis
          using step [of "h\<lparr>PosNext := Address (ts ! nat (int i + 1)),
              PosPrev := Address (ts ! nat (int i - 1))\<rparr>"]
          by (simp add: index_def)
      qed
    qed
  qed
qed

lemma findLoop_skip:
  "\<not> present del xs \<Longrightarrow> findLoop del ts i (xs @ ys) h = findLoop del ts (i + length xs) ys h"
  by (induction xs arbitrary: i) (auto simp: present_def)

lemma findLoop_short: "length ts \<le> 1 \<Longrightarrow> findLoop del ts i rest h = Inr h"
  by (induction rest arbitrary: i) auto

lemma findTranscoderHints_absent:
  "\<not> present del ts \<Longrightarrow> findTranscoderHints del ts = Inr emptyHints"
  using findLoop_skip [of del ts ts 0 "[]" emptyHints] by (simp add: findTranscoderHints_def)

lemma findTranscoderHints_once:
  assumes t: "Address t = del" and pre: "\<not> present del pre" and post: "\<not> present del post"
  shows "findTranscoderHints del (pre @ t # post) = Inr (placement pre post)"
proof -
  let ?ts = "pre @ t # post"
  have rest_done: "findLoop del ?ts i post g = Inr g" for i g
    using findLoop_skip [OF post, of ?ts i "[]" g] by simp
  have start: "findTranscoderHints del ?ts = findLoop del ?ts (length pre) (t # post) emptyHints"
    using findLoop_skip [OF pre, of ?ts 0 "t # post" emptyHints]
    by (simp add: findTranscoderHints_def)
  have nxt: "post \<noteq> [] \<Longrightarrow> ?ts ! Suc (length pre) = hd post"
    by (cases post) (simp_all add: nth_append)
  have prv: "pre \<noteq> [] \<Longrightarrow> ?ts ! (length pre - 1) = last pre"
    by (simp add: nth_append last_conv_nth)
  have s1: "nat (int (length pre) + 1) = Suc (length pre)" by simp
  have s2: "pre \<noteq> [] \<Longrightarrow> nat (int (length pre) - 1) = length pre - 1" by simp
  consider (single) "pre = []" "post = []" | (head) "pre = []" "post \<noteq> []"
    | (tail) "pre \<noteq> []" "post = []" | (mid) "pre \<noteq> []" "post \<noteq> []" by blast
  then show ?thesis
  proof cases
    case single
    show ?thesis unfolding start using single t
      by (simp add: placement_def)
  next
    case head
    show ?thesis unfolding start using head t nxt rest_done
      by (simp add: placement_def index_def emptyHints_def)
  next
    case tail
    show ?thesis unfolding start using tail t prv s2 rest_done
      by (simp add: placement_def index_def emptyHints_def)
  next
    case mid
    show ?thesis unfolding start using mid t prv nxt rest_done s1 s2
      by (simp add: placement_def index_def emptyHints_def)
  qed
qed

lemma firstIndex_shift: "firstIndex del (Suc i) xs = map_option Suc (firstIndex del i xs)"
  by (induction xs arbitrary: i) auto

lemma withoutTarget_Nil: "withoutTarget del [] = []"
  by (simp add: withoutTarget_def)

lemma withoutTarget_Cons:
  "withoutTarget del (t # rest) = (if Address t = del then rest else t # withoutTarget del rest)"
  by (cases "firstIndex del 0 rest") (simp_all add: withoutTarget_def firstIndex_shift)

lemma count_withoutTarget:
  "length (filter (\<lambda>t. Address t = del) (withoutTarget del xs))
     = length (filter (\<lambda>t. Address t = del) xs) - 1"
  by (induction xs) (simp_all add: withoutTarget_Nil withoutTarget_Cons)

lemma descending_resorted: "descending (resorted del newStake xs)"
proof -
  have "sorted (map (\<lambda>t. - DelegatedStake t) (resorted del newStake xs))"
    by (simp add: resorted_def stable_sort_stake)
  then show ?thesis
    by (simp add: descending_def sorted_map)
qed

lemma descending_butlast: "descending xs \<Longrightarrow> descending (butlast xs)"
  unfolding descending_def butlast_conv_take by (rule sorted_wrt_take)

lemma descending_simulatedList: "descending (simulatedList del newStake xs isFull)"
  by (simp add: simulatedList_def descending_resorted descending_butlast)

lemma length_simulatedList:
  "length (simulatedList del newStake xs isFull)
     = (if present del xs then length xs else length xs + 1) - (if isFull then 1 else 0)"
  by (simp add: simulatedList_def length_resorted)

lemma stable_resorted:
  "filter (\<lambda>t. DelegatedStake t = k) (resorted del newStake xs)
     = filter (\<lambda>t. DelegatedStake t = k)
         (withoutTarget del xs @ [\<lparr>Address = del, DelegatedStake = newStake\<rparr>])"
proof -
  have "filter (\<lambda>t. - DelegatedStake t = - k) (sort_key (\<lambda>t. - DelegatedStake t) ys)
      = filter (\<lambda>t. - DelegatedStake t = - k) ys" for ys :: "Transcoder list"
    by (rule sort_key_stable)
  then show ?thesis
    by (simp add: resorted_def stable_sort_stake)
qed

lemma count_simulatedList:
  assumes "length (filter (\<lambda>t. Address t = del) xs) \<le> 1"
  shows "length (filter (\<lambda>t. Address t = del) (simulatedList del newStake xs isFull)) \<le> 1"
proof -
  have "length (filter (\<lambda>t. Address t = del) (resorted del newStake xs))
      = length (filter (\<lambda>t. Address t = del)
          (withoutTarget del xs @ [\<lparr>Address = del, DelegatedStake = newStake\<rparr>]))"
    unfolding resorted_def stable_sort_stake filter_sort by (rule length_sort)
  also have "\<dots> \<le> 1" using assms by (simp add: count_withoutTarget)
  finally have r: "length (filter (\<lambda>t. Address t = del) (resorted del newStake xs)) \<le> 1" .
  have "length (filter P (butlast ys)) \<le> length (filter P ys)" for P and ys :: "Transcoder list"
    using prefix_length_le [OF filter_mono_prefix [OF prefixeq_butlast]] .
  with r show ?thesis
    by (auto simp: simulatedList_def intro: order_trans)
qed

lemma once_split:
  assumes c: "length (filter (\<lambda>t. Address t = del) (pre @ t # post)) \<le> 1"
    and t: "Address t = del"
  shows "\<not> present del pre \<and> \<not> present del post"
  using c t by (auto simp: present_def filter_empty_conv)

lemma simulate_eq:
  "\<exists>hints. findTranscoderHints del (simulatedList del newStake (elems s) isFull) = Inr hints
     \<and> simulateTranscoderPoolUpdate del newStake s isFull
         = Inr (hints, callerAfter del newStake s)"
proof -
  from simulatedPool_eq [of del newStake s isFull] obtain sp where
    eq: "simulatedPool del newStake s isFull =
      Inr (\<lparr>elems = simulatedList del newStake (elems s) isFull, spare = sp\<rparr>,
           callerAfter del newStake s)" ..
  from findLoop_total [of 0 "simulatedList del newStake (elems s) isFull" _ del emptyHints]
  obtain h where
    "findTranscoderHints del (simulatedList del newStake (elems s) isFull) = Inr h"
    unfolding findTranscoderHints_def by auto
  with eq show ?thesis by (simp add: simulateTranscoderPoolUpdate_def)
qed

lemma scenarioA_hints:
  "simulatedPool 13 90 scenarioA True =
     Inr (\<lparr>elems = [\<lparr>Address = 10, DelegatedStake = 100\<rparr>, \<lparr>Address = 13, DelegatedStake = 90\<rparr>,
                    \<lparr>Address = 11, DelegatedStake = 80\<rparr>],
           spare = [\<lparr>Address = 12, DelegatedStake = 50\<rparr>]\<rparr>, scenarioA)
   \<and> simulateTranscoderPoolUpdate 13 90 scenarioA True
     = Inr (\<lparr>PosPrev = 10, PosNext = 11\<rparr>, scenarioA)"
  by (simp add: scenarioA_def simulateTranscoderPoolUpdate_def simulatedPool_def removeTarget_def
      append_slice_def SliceStable_def stable_sort_def stakeLess_def view_def cells_def cap_def
      slice_to_def slice_from_def findTranscoderHints_def emptyHints_def index_def nullAddress_def)

lemma CheckTx_discard:
  "\<forall>ev \<in> set earlier. otherReceipt tx ev \<Longrightarrow>
     CheckTx hex tx (earlier @ later) = CheckTx hex tx later"
proof (induction earlier)
  case Nil
  then show ?case by simp
next
  case (Cons ev earlier)
  then show ?case by (cases ev) (simp_all add: otherReceipt_def)
qed

text \<open>The definitions that evaluate the simulator on concrete data.\<close>

lemmas sim_defs = simulateTranscoderPoolUpdate_def simulatedPool_def removeTarget_def
      append_slice_def SliceStable_def stable_sort_def stakeLess_def view_def cells_def cap_def
      slice_to_def slice_from_def findTranscoderHints_def emptyHints_def index_def nullAddress_def

section \<open>The claims of the specification\<close>

text \<open>
  Claim C1, as amended. For every slice (sorted or not), every target address and every
  new stake, the list that \<^verbatim>\<open>simulateTranscoderPoolUpdate\<close> hands to
  \<^verbatim>\<open>findTranscoderHints\<close> is sorted descending by stake. Its length is the length of the
  pool when the target was present and one more when it was absent, less one when
  \<^verbatim>\<open>isFull\<close> is set: the last entry is dropped whenever \<^verbatim>\<open>isFull\<close> is set, also when
  the target was already in the pool.
\<close>

theorem simulatedPool_sorted_length:
  "\<exists>final caller. simulatedPool del newStake s isFull = Inr (final, caller)
     \<and> descending (elems final)
     \<and> length (elems final)
         = (if present del (elems s) then length (elems s) else length (elems s) + 1)
           - (if isFull then 1 else 0)"
  using simulatedPool_eq [of del newStake s isFull]
    descending_simulatedList [of del newStake "elems s" isFull]
    length_simulatedList [of del newStake "elems s" isFull]
  by auto

text \<open>
  Claim C1 as written gives the length of the pool for a target that was present. In the
  full pool A:100, B:80 the entry of A is replaced by A:120 and the code then drops B: one
  entry is left, not two.
\<close>

theorem simulatedPool_length_counterexample:
  "descending [\<lparr>Address = 1, DelegatedStake = 100\<rparr>, \<lparr>Address = 2, DelegatedStake = 80\<rparr>]
   \<and> present 1 [\<lparr>Address = 1, DelegatedStake = 100\<rparr>, \<lparr>Address = 2, DelegatedStake = 80\<rparr>]
   \<and> simulatedPool 1 120
        \<lparr>elems = [\<lparr>Address = 1, DelegatedStake = 100\<rparr>, \<lparr>Address = 2, DelegatedStake = 80\<rparr>],
         spare = []\<rparr> True
       = Inr (\<lparr>elems = [\<lparr>Address = 1, DelegatedStake = 120\<rparr>],
               spare = [\<lparr>Address = 2, DelegatedStake = 80\<rparr>]\<rparr>,
              \<lparr>elems = [\<lparr>Address = 1, DelegatedStake = 120\<rparr>, \<lparr>Address = 2, DelegatedStake = 80\<rparr>],
               spare = []\<rparr>)
   \<and> length [\<lparr>Address = 1, DelegatedStake = 120\<rparr>]
       \<noteq> length [\<lparr>Address = 1, DelegatedStake = 100\<rparr>, \<lparr>Address = 2, DelegatedStake = 80\<rparr>]"
  by (simp add: descending_def present_def simulatedPool_def removeTarget_def append_slice_def
      SliceStable_def stable_sort_def stakeLess_def view_def cells_def cap_def slice_to_def
      slice_from_def)

text \<open>
  Claim C2, as amended. The call always returns hints, and they are the hints of the
  simulated list, which depends on the target, the new stake, the elements of the slice
  and \<^verbatim>\<open>isFull\<close> only, not on the capacity of the slice. The call is not free of side
  effects: it works in the caller's array. After the call the caller's slice has the
  capacity it had, and its list is the original list when the target was absent and the
  slice had no spare capacity (the append allocates a new array), and in every other case
  the first entries, as many as the list had, of the re-sorted list: the pool without the
  first old entry of the target, with the new entry appended, sorted. That list need not be
  the original one.
\<close>

theorem simulate_frame:
  "\<exists>hints caller. simulateTranscoderPoolUpdate del newStake s isFull = Inr (hints, caller)
     \<and> findTranscoderHints del (simulatedList del newStake (elems s) isFull) = Inr hints
     \<and> elems caller
         = (if \<not> present del (elems s) \<and> spare s = [] then elems s
            else take (length (elems s)) (resorted del newStake (elems s)))
     \<and> cap caller = cap s"
proof -
  have "cap (callerAfter del newStake s) = cap s"
    using length_resorted [of del newStake "elems s"]
    by (auto simp: callerAfter_def cap_def cells_def present_def)
  then show ?thesis
    using simulate_eq [of del newStake s isFull] by (auto simp: callerAfter_def)
qed

text \<open>
  Claim C2 as written leaves the caller's list unchanged. For the pool A:100, B:80 and
  the target B with the new stake 120 the caller's list is B:120, A:100 after the call.
\<close>

theorem simulate_frame_counterexample:
  "simulateTranscoderPoolUpdate 2 120
      \<lparr>elems = [\<lparr>Address = 1, DelegatedStake = 100\<rparr>, \<lparr>Address = 2, DelegatedStake = 80\<rparr>],
       spare = []\<rparr> False
     = Inr (\<lparr>PosPrev = 0, PosNext = 1\<rparr>,
            \<lparr>elems = [\<lparr>Address = 2, DelegatedStake = 120\<rparr>, \<lparr>Address = 1, DelegatedStake = 100\<rparr>],
             spare = []\<rparr>)
   \<and> [\<lparr>Address = 2, DelegatedStake = 120\<rparr>, \<lparr>Address = 1, DelegatedStake = 100\<rparr>]
       \<noteq> [\<lparr>Address = 1, DelegatedStake = 100\<rparr>, \<lparr>Address = 2, DelegatedStake = 80\<rparr>]"
  by (simp add: simulateTranscoderPoolUpdate_def simulatedPool_def removeTarget_def
      append_slice_def SliceStable_def stable_sort_def stakeLess_def view_def cells_def cap_def
      slice_to_def slice_from_def findTranscoderHints_def emptyHints_def index_def nullAddress_def)

text \<open>
  Claim C3, as amended. When the pool holds at most one entry of the target, the hints
  follow the placement rule on the simulated list: no entry of the target gives empty
  hints; a list of length 1 gives empty hints; the target at the head gives no previous
  address and its successor as the next; the target at the tail gives its predecessor and
  no next address; the target in the middle gives both neighbours. For the full pool
  A:100, B:80, C:50 and D with the new stake 90 the hints are A and B.
\<close>

theorem hints_placement:
  "(occurrences del (elems s) \<le> 1 \<longrightarrow>
     (\<exists>final caller hints.
        simulatedPool del newStake s isFull = Inr (final, caller)
      \<and> simulateTranscoderPoolUpdate del newStake s isFull = Inr (hints, caller)
      \<and> (\<not> present del (elems final) \<longrightarrow> hints = emptyHints)
      \<and> (length (elems final) = 1 \<longrightarrow> hints = emptyHints)
      \<and> (\<forall>t post. elems final = t # post \<and> Address t = del \<and> post \<noteq> [] \<longrightarrow>
            hints = \<lparr>PosPrev = nullAddress, PosNext = Address (hd post)\<rparr>)
      \<and> (\<forall>pre t. elems final = pre @ [t] \<and> Address t = del \<and> pre \<noteq> [] \<longrightarrow>
            hints = \<lparr>PosPrev = Address (last pre), PosNext = nullAddress\<rparr>)
      \<and> (\<forall>pre t post.
            elems final = pre @ t # post \<and> Address t = del \<and> pre \<noteq> [] \<and> post \<noteq> [] \<longrightarrow>
            hints = \<lparr>PosPrev = Address (last pre), PosNext = Address (hd post)\<rparr>)))
   \<and> simulateTranscoderPoolUpdate 13 90 scenarioA True
       = Inr (\<lparr>PosPrev = 10, PosNext = 11\<rparr>, scenarioA)"
proof (intro conjI impI)
  assume once: "occurrences del (elems s) \<le> 1"
  let ?L = "simulatedList del newStake (elems s) isFull"
  from simulatedPool_eq [of del newStake s isFull] obtain sp where
    pool: "simulatedPool del newStake s isFull =
      Inr (\<lparr>elems = ?L, spare = sp\<rparr>, callerAfter del newStake s)" ..
  from simulate_eq [of del newStake s isFull] obtain h where
    h: "findTranscoderHints del ?L = Inr h"
    and sim: "simulateTranscoderPoolUpdate del newStake s isFull
      = Inr (h, callerAfter del newStake s)" by blast
  have cnt: "length (filter (\<lambda>t. Address t = del) ?L) \<le> 1"
    using once unfolding occurrences_def by (rule count_simulatedList)
  have at: "h = placement pre post" if "?L = pre @ t # post" "Address t = del" for pre t post
  proof -
    from cnt that have "\<not> present del pre \<and> \<not> present del post"
      using once_split [of del pre t post] by simp
    with that h findTranscoderHints_once [of t del pre post] show ?thesis by simp
  qed
  have c1: "\<not> present del ?L \<longrightarrow> h = emptyHints"
    using h findTranscoderHints_absent [of del ?L] by auto
  have c2: "length ?L = 1 \<longrightarrow> h = emptyHints"
    using h findLoop_short [of ?L del 0 ?L emptyHints] by (simp add: findTranscoderHints_def)
  have c3: "\<forall>t post. ?L = t # post \<and> Address t = del \<and> post \<noteq> [] \<longrightarrow>
      h = \<lparr>PosPrev = nullAddress, PosNext = Address (hd post)\<rparr>"
    using at [of "[]"] by (simp add: placement_def)
  have c4: "\<forall>pre t. ?L = pre @ [t] \<and> Address t = del \<and> pre \<noteq> [] \<longrightarrow>
      h = \<lparr>PosPrev = Address (last pre), PosNext = nullAddress\<rparr>"
    using at [of _ _ "[]"] by (simp add: placement_def)
  have c5: "\<forall>pre t post. ?L = pre @ t # post \<and> Address t = del \<and> pre \<noteq> [] \<and> post \<noteq> [] \<longrightarrow>
      h = \<lparr>PosPrev = Address (last pre), PosNext = Address (hd post)\<rparr>"
    using at by (simp add: placement_def)
  show "\<exists>final caller hints.
        simulatedPool del newStake s isFull = Inr (final, caller)
      \<and> simulateTranscoderPoolUpdate del newStake s isFull = Inr (hints, caller)
      \<and> (\<not> present del (elems final) \<longrightarrow> hints = emptyHints)
      \<and> (length (elems final) = 1 \<longrightarrow> hints = emptyHints)
      \<and> (\<forall>t post. elems final = t # post \<and> Address t = del \<and> post \<noteq> [] \<longrightarrow>
            hints = \<lparr>PosPrev = nullAddress, PosNext = Address (hd post)\<rparr>)
      \<and> (\<forall>pre t. elems final = pre @ [t] \<and> Address t = del \<and> pre \<noteq> [] \<longrightarrow>
            hints = \<lparr>PosPrev = Address (last pre), PosNext = nullAddress\<rparr>)
      \<and> (\<forall>pre t post.
            elems final = pre @ t # post \<and> Address t = del \<and> pre \<noteq> [] \<and> post \<noteq> [] \<longrightarrow>
            hints = \<lparr>PosPrev = Address (last pre), PosNext = Address (hd post)\<rparr>)"
    using pool sim c1 c2 c3 c4 c5 by simp
next
  show "simulateTranscoderPoolUpdate 13 90 scenarioA True
      = Inr (\<lparr>PosPrev = 10, PosNext = 11\<rparr>, scenarioA)"
    using scenarioA_hints by simp
qed

text \<open>
  The instance of the rule at scenario A: D is in the middle of A:100, D:90, B:80.
\<close>

theorem hints_placement_witness:
  "occurrences 13 (elems scenarioA) \<le> 1
   \<and> simulatedPool 13 90 scenarioA True =
       Inr (\<lparr>elems = [\<lparr>Address = 10, DelegatedStake = 100\<rparr>, \<lparr>Address = 13, DelegatedStake = 90\<rparr>,
                      \<lparr>Address = 11, DelegatedStake = 80\<rparr>],
             spare = [\<lparr>Address = 12, DelegatedStake = 50\<rparr>]\<rparr>, scenarioA)
   \<and> simulateTranscoderPoolUpdate 13 90 scenarioA True
       = Inr (\<lparr>PosPrev = Address (last [\<lparr>Address = 10, DelegatedStake = 100\<rparr>]),
              PosNext = Address (hd [\<lparr>Address = 11, DelegatedStake = 80\<rparr>])\<rparr>, scenarioA)"
proof -
  have o: "occurrences 13 (elems scenarioA) \<le> 1"
    by (simp add: occurrences_def scenarioA_def)
  have p: "simulatedPool 13 90 scenarioA True =
       Inr (\<lparr>elems = [\<lparr>Address = 10, DelegatedStake = 100\<rparr>, \<lparr>Address = 13, DelegatedStake = 90\<rparr>,
                      \<lparr>Address = 11, DelegatedStake = 80\<rparr>],
             spare = [\<lparr>Address = 12, DelegatedStake = 50\<rparr>]\<rparr>, scenarioA)"
    using scenarioA_hints by simp
  from hints_placement [of 13 scenarioA 90 True] o
  obtain final caller hints where
    f: "simulatedPool 13 90 scenarioA True = Inr (final, caller)"
    and h: "simulateTranscoderPoolUpdate 13 90 scenarioA True = Inr (hints, caller)"
    and mid: "\<forall>pre t post.
        elems final = pre @ t # post \<and> Address t = 13 \<and> pre \<noteq> [] \<and> post \<noteq> [] \<longrightarrow>
        hints = \<lparr>PosPrev = Address (last pre), PosNext = Address (hd post)\<rparr>"
    by blast
  from f p have e: "elems final = [\<lparr>Address = 10, DelegatedStake = 100\<rparr>]
      @ \<lparr>Address = 13, DelegatedStake = 90\<rparr> # [\<lparr>Address = 11, DelegatedStake = 80\<rparr>]"
    and c: "caller = scenarioA" by auto
  from mid e have "hints = \<lparr>PosPrev = Address (last [\<lparr>Address = 10, DelegatedStake = 100\<rparr>]),
      PosNext = Address (hd [\<lparr>Address = 11, DelegatedStake = 80\<rparr>])\<rparr>"
    by (metis Transcoder.select_convs(1) list.distinct(1))
  with h c o p show ?thesis by simp
qed

text \<open>
  Claim C3 as written holds for every simulated list. The loop of
  \<^verbatim>\<open>findTranscoderHints\<close> does not stop at the first entry of the target: for a pool with
  two entries of the target 4, the simulated list is 4:5, 7:3, 4:1 with the target at the
  head, and the hints have the previous address 7, set by the entry at the tail, where the
  rule for the head gives the null address.
\<close>

theorem hints_placement_counterexample:
  "simulatedPool 4 1
      \<lparr>elems = [\<lparr>Address = 4, DelegatedStake = 9\<rparr>, \<lparr>Address = 4, DelegatedStake = 5\<rparr>,
                \<lparr>Address = 7, DelegatedStake = 3\<rparr>], spare = []\<rparr> False
     = Inr (\<lparr>elems = [\<lparr>Address = 4, DelegatedStake = 5\<rparr>, \<lparr>Address = 7, DelegatedStake = 3\<rparr>,
                      \<lparr>Address = 4, DelegatedStake = 1\<rparr>], spare = []\<rparr>,
            \<lparr>elems = [\<lparr>Address = 4, DelegatedStake = 5\<rparr>, \<lparr>Address = 7, DelegatedStake = 3\<rparr>,
                      \<lparr>Address = 4, DelegatedStake = 1\<rparr>], spare = []\<rparr>)
   \<and> simulateTranscoderPoolUpdate 4 1
      \<lparr>elems = [\<lparr>Address = 4, DelegatedStake = 9\<rparr>, \<lparr>Address = 4, DelegatedStake = 5\<rparr>,
                \<lparr>Address = 7, DelegatedStake = 3\<rparr>], spare = []\<rparr> False
     = Inr (\<lparr>PosPrev = 7, PosNext = 7\<rparr>,
            \<lparr>elems = [\<lparr>Address = 4, DelegatedStake = 5\<rparr>, \<lparr>Address = 7, DelegatedStake = 3\<rparr>,
                      \<lparr>Address = 4, DelegatedStake = 1\<rparr>], spare = []\<rparr>)
   \<and> \<lparr>PosPrev = 7, PosNext = 7\<rparr> \<noteq> \<lparr>PosPrev = nullAddress, PosNext = (7 :: address)\<rparr>"
  by (simp add: simulateTranscoderPoolUpdate_def simulatedPool_def removeTarget_def
      append_slice_def SliceStable_def stable_sort_def stakeLess_def view_def cells_def cap_def
      slice_to_def slice_from_def findTranscoderHints_def emptyHints_def index_def nullAddress_def)

text \<open>
  Claim C4. The simulated list keeps entries of equal stake in the order of the input:
  for every stake \<open>k\<close>, the entries of stake \<open>k\<close> in the simulated list are, in the same
  order, the entries of stake \<open>k\<close> of the pool without the old entry of the target and
  with the new entry of the target last (all of them when \<^verbatim>\<open>isFull\<close> is not set, all or
  all but the last when it is set and the final entry is dropped).
\<close>

theorem simulatedPool_stable:
  "\<exists>final caller. simulatedPool del newStake s isFull = Inr (final, caller)
     \<and> (\<forall>k. prefix (sameStake k (elems final))
              (sameStake k (withoutTarget del (elems s) @ [targetEntry del newStake])))
     \<and> (\<not> isFull \<longrightarrow>
          (\<forall>k. sameStake k (elems final)
              = sameStake k (withoutTarget del (elems s) @ [targetEntry del newStake])))"
proof -
  from simulatedPool_eq [of del newStake s isFull] obtain sp where
    eq: "simulatedPool del newStake s isFull =
      Inr (\<lparr>elems = simulatedList del newStake (elems s) isFull, spare = sp\<rparr>,
           callerAfter del newStake s)" ..
  have st: "sameStake k (resorted del newStake (elems s))
      = sameStake k (withoutTarget del (elems s) @ [targetEntry del newStake])" for k
    unfolding sameStake_def targetEntry_def by (rule stable_resorted)
  have pre: "prefix (sameStake k (simulatedList del newStake (elems s) isFull))
      (sameStake k (resorted del newStake (elems s)))" for k
    unfolding sameStake_def simulatedList_def
    by (simp add: filter_mono_prefix prefixeq_butlast)
  show ?thesis
    using eq pre st by (auto simp: simulatedList_def)
qed

text \<open>
  In the pool A:100, B:80, C:80 that is not full, D with the new stake 80 comes after B and
  C, which keep their order.
\<close>

theorem simulatedPool_stable_witness:
  "\<not> False
   \<and> simulatedPool 13 80 tiedPool False =
       Inr (\<lparr>elems = [\<lparr>Address = 10, DelegatedStake = 100\<rparr>, \<lparr>Address = 11, DelegatedStake = 80\<rparr>,
                      \<lparr>Address = 12, DelegatedStake = 80\<rparr>, \<lparr>Address = 13, DelegatedStake = 80\<rparr>],
             spare = []\<rparr>, tiedPool)
   \<and> sameStake 80 [\<lparr>Address = 10, DelegatedStake = 100\<rparr>, \<lparr>Address = 11, DelegatedStake = 80\<rparr>,
                     \<lparr>Address = 12, DelegatedStake = 80\<rparr>, \<lparr>Address = 13, DelegatedStake = 80\<rparr>]
       = sameStake 80 (withoutTarget 13 (elems tiedPool) @ [targetEntry 13 80])
   \<and> sameStake 80 (withoutTarget 13 (elems tiedPool) @ [targetEntry 13 80])
       = [\<lparr>Address = 11, DelegatedStake = 80\<rparr>, \<lparr>Address = 12, DelegatedStake = 80\<rparr>,
          \<lparr>Address = 13, DelegatedStake = 80\<rparr>]"
proof -
  have p: "simulatedPool 13 80 tiedPool False =
       Inr (\<lparr>elems = [\<lparr>Address = 10, DelegatedStake = 100\<rparr>, \<lparr>Address = 11, DelegatedStake = 80\<rparr>,
                      \<lparr>Address = 12, DelegatedStake = 80\<rparr>, \<lparr>Address = 13, DelegatedStake = 80\<rparr>],
             spare = []\<rparr>, tiedPool)"
    by (simp add: tiedPool_def sim_defs)
  from simulatedPool_stable [of 13 80 tiedPool False]
  obtain final caller where
    f: "simulatedPool 13 80 tiedPool False = Inr (final, caller)"
    and st: "\<forall>k. sameStake k (elems final)
        = sameStake k (withoutTarget 13 (elems tiedPool) @ [targetEntry 13 80])"
    by auto
  from f p have "elems final = [\<lparr>Address = 10, DelegatedStake = 100\<rparr>,
      \<lparr>Address = 11, DelegatedStake = 80\<rparr>, \<lparr>Address = 12, DelegatedStake = 80\<rparr>,
      \<lparr>Address = 13, DelegatedStake = 80\<rparr>]" by auto
  with st have a: "sameStake 80 [\<lparr>Address = 10, DelegatedStake = 100\<rparr>,
      \<lparr>Address = 11, DelegatedStake = 80\<rparr>, \<lparr>Address = 12, DelegatedStake = 80\<rparr>,
      \<lparr>Address = 13, DelegatedStake = 80\<rparr>]
      = sameStake 80 (withoutTarget 13 (elems tiedPool) @ [targetEntry 13 80])" by metis
  have b: "sameStake 80 (withoutTarget 13 (elems tiedPool) @ [targetEntry 13 80])
       = [\<lparr>Address = 11, DelegatedStake = 80\<rparr>, \<lparr>Address = 12, DelegatedStake = 80\<rparr>,
          \<lparr>Address = 13, DelegatedStake = 80\<rparr>]"
    by (simp add: sameStake_def withoutTarget_def tiedPool_def targetEntry_def)
  from p a b show ?thesis by simp
qed

text \<open>
  Claim C5. When \<^verbatim>\<open>Bond(amount, to)\<close> finds the caller's delegate to be neither \<open>to\<close>
  nor the null address, and every read succeeds, then the hints for the old delegate are
  simulated at its total stake less the caller's pending stake, the hints for \<open>to\<close> at
  the total stake of \<open>to\<close> plus the pending stake plus \<open>amount\<close>, and the transaction
  submitted carries the pending stake plus \<open>amount\<close> and both pairs of hints. The second
  simulation runs on the slice as the first one left it.
\<close>

theorem Bond_switch:
  assumes "Allowance c (account c) (bondingManagerAddr c) = Inr allowance"
    and "approveStep c allowance amount = Inr sent"
    and "TranscoderPool c = Inr transcoders"
    and "GetTranscoderPoolMaxSize c = Inr maxSize"
    and "GetDelegator c (account c) = Inr delegator"
    and "DelegateAddress delegator \<noteq> to" and "DelegateAddress delegator \<noteq> nullAddress"
    and "CurrentRound c = Inr currentRound"
    and "PendingStake c (account c) currentRound = Inr pending"
    and "TranscoderTotalStake c (DelegateAddress delegator) = Inr oldTotal"
    and "TranscoderTotalStake c to = Inr toTotal"
  shows "\<exists>oldHints transcoders' newHints transcoders''.
      simulateTranscoderPoolUpdate (DelegateAddress delegator) (oldTotal - pending) transcoders
        (int (length (elems transcoders)) = Int64 maxSize) = Inr (oldHints, transcoders')
    \<and> simulateTranscoderPoolUpdate to (toTotal + (pending + amount)) transcoders'
        (int (length (elems transcoders)) = Int64 maxSize) = Inr (newHints, transcoders'')
    \<and> Bond c amount to =
        Submitted sent
          (BondWithHintCall (pending + amount) to (PosPrev oldHints) (PosNext oldHints)
             (PosPrev newHints) (PosNext newHints))"
proof -
  let ?full = "int (length (elems transcoders)) = Int64 maxSize"
  from simulate_eq [of "DelegateAddress delegator" "oldTotal - pending" transcoders ?full]
  obtain oldHints where
    old: "simulateTranscoderPoolUpdate (DelegateAddress delegator) (oldTotal - pending)
        transcoders ?full
      = Inr (oldHints, callerAfter (DelegateAddress delegator) (oldTotal - pending) transcoders)"
    by blast
  let ?ts' = "callerAfter (DelegateAddress delegator) (oldTotal - pending) transcoders"
  from simulate_eq [of to "toTotal + (pending + amount)" ?ts' ?full]
  obtain newHints where
    new: "simulateTranscoderPoolUpdate to (toTotal + (pending + amount)) ?ts' ?full
      = Inr (newHints, callerAfter to (toTotal + (pending + amount)) ?ts')"
    by blast
  have sw: "switchDelegate c sent (account c) to delegator amount transcoders ?full
      = Inr (pending + amount, oldHints, ?ts')"
    using assms old by (simp add: switchDelegate_def)
  have "Bond c amount to =
        Submitted sent
          (BondWithHintCall (pending + amount) to (PosPrev oldHints) (PosNext oldHints)
             (PosPrev newHints) (PosNext newHints))"
    using assms sw new by (simp add: Bond_def Let_def add.commute)
  with old new show ?thesis by blast
qed

text \<open>
  On \<open>chain0\<close> the caller has the delegate B and a pending stake of 30, and bonds 5 more
  to C: the hypotheses of the theorem hold and the transaction carries the amount 35.
\<close>

theorem Bond_switch_witness:
  "Allowance chain0 (account chain0) (bondingManagerAddr chain0) = Inr 1000
   \<and> approveStep chain0 1000 5 = Inr []
   \<and> TranscoderPool chain0 = Inr scenarioA
   \<and> GetTranscoderPoolMaxSize chain0 = Inr 3
   \<and> GetDelegator chain0 (account chain0) = Inr delegator0
   \<and> DelegateAddress delegator0 \<noteq> 12 \<and> DelegateAddress delegator0 \<noteq> nullAddress
   \<and> CurrentRound chain0 = Inr 7
   \<and> PendingStake chain0 (account chain0) 7 = Inr 30
   \<and> TranscoderTotalStake chain0 (DelegateAddress delegator0) = Inr 80
   \<and> TranscoderTotalStake chain0 12 = Inr 50
   \<and> Bond chain0 5 12 = Submitted [] (BondWithHintCall 35 12 0 0 10 0)"
proof -
  have h1: "Allowance chain0 (account chain0) (bondingManagerAddr chain0) = Inr 1000"
    by (simp add: chain0_def)
  have h2: "approveStep chain0 1000 5 = Inr []" by (simp add: approveStep_def)
  have h3: "TranscoderPool chain0 = Inr scenarioA" by (simp add: chain0_def)
  have h4: "GetTranscoderPoolMaxSize chain0 = Inr 3" by (simp add: chain0_def)
  have h5: "GetDelegator chain0 (account chain0) = Inr delegator0"
    by (simp add: chain0_def GetDelegator_def delegator0_def)
  have h6: "DelegateAddress delegator0 \<noteq> 12" by (simp add: delegator0_def)
  have h7: "DelegateAddress delegator0 \<noteq> nullAddress" by (simp add: delegator0_def nullAddress_def)
  have h8: "CurrentRound chain0 = Inr 7" by (simp add: chain0_def)
  have h9: "PendingStake chain0 (account chain0) 7 = Inr 30" by (simp add: chain0_def)
  have h10: "TranscoderTotalStake chain0 (DelegateAddress delegator0) = Inr 80"
    by (simp add: chain0_def delegator0_def)
  have h11: "TranscoderTotalStake chain0 12 = Inr 50" by (simp add: chain0_def)
  have full: "(int (length (elems scenarioA)) = Int64 3) = True"
    by (simp add: scenarioA_def Int64_def)
  have old: "simulateTranscoderPoolUpdate (DelegateAddress delegator0) (80 - 30) scenarioA True
      = Inr (\<lparr>PosPrev = 0, PosNext = 0\<rparr>,
             \<lparr>elems = [\<lparr>Address = 10, DelegatedStake = 100\<rparr>, \<lparr>Address = 12, DelegatedStake = 50\<rparr>,
                       \<lparr>Address = 11, DelegatedStake = 50\<rparr>], spare = []\<rparr>)"
    by (simp add: delegator0_def scenarioA_def sim_defs)
  have new: "simulateTranscoderPoolUpdate 12 (50 + (30 + 5))
        \<lparr>elems = [\<lparr>Address = 10, DelegatedStake = 100\<rparr>, \<lparr>Address = 12, DelegatedStake = 50\<rparr>,
                  \<lparr>Address = 11, DelegatedStake = 50\<rparr>], spare = []\<rparr> True
      = Inr (\<lparr>PosPrev = 10, PosNext = 0\<rparr>,
             \<lparr>elems = [\<lparr>Address = 10, DelegatedStake = 100\<rparr>, \<lparr>Address = 12, DelegatedStake = 85\<rparr>,
                       \<lparr>Address = 11, DelegatedStake = 50\<rparr>], spare = []\<rparr>)"
    by (simp add: sim_defs)
  from Bond_switch [OF h1 h2 h3 h4 h5 h6 h7 h8 h9 h10 h11]
  have "Bond chain0 5 12 = Submitted [] (BondWithHintCall 35 12 0 0 10 0)"
    unfolding full old using new by auto
  with h1 h2 h3 h4 h5 h6 h7 h8 h9 h10 h11 show ?thesis by simp
qed

text \<open>
  Claim C6. When every read succeeds and the total bonded \<open>B\<close> is positive,
  \<^verbatim>\<open>Reward\<close> computes the reward as the floor of the exact quotient of the mintable
  amount \<open>M\<close> times the total stake \<open>T\<close> of the earnings pool by \<open>B\<close>, in integers, and
  submits the hints simulated for the caller at the stake \<open>T\<close> plus the reward.
\<close>

theorem Reward_floor:
  assumes "CurrentRound c = Inr currentRound"
    and "GetTranscoderEarningsPoolForRound c (account c) currentRound = Inr ep"
    and "CurrentMintableTokens c = Inr M"
    and "GetTotalBonded c = Inr B"
    and "0 < B"
    and "TranscoderPool c = Inr transcoders"
    and "GetTranscoderPoolMaxSize c = Inr maxSize"
  shows "\<exists>hints caller.
      Div (M * TotalStake ep) B = Some \<lfloor>real_of_int (M * TotalStake ep) / real_of_int B\<rfloor>
    \<and> simulateTranscoderPoolUpdate (account c)
        (TotalStake ep + \<lfloor>real_of_int (M * TotalStake ep) / real_of_int B\<rfloor>) transcoders
        (int (length (elems transcoders)) = Int64 maxSize) = Inr (hints, caller)
    \<and> Reward c = Submitted [] (RewardWithHintCall (PosPrev hints) (PosNext hints))"
proof -
  let ?r = "\<lfloor>real_of_int (M * TotalStake ep) / real_of_int B\<rfloor>"
  let ?full = "int (length (elems transcoders)) = Int64 maxSize"
  have "?r = (M * TotalStake ep) div B"
    by (rule floor_divide_of_int_eq)
  then have d: "Div (M * TotalStake ep) B = Some ?r"
    using \<open>0 < B\<close> by (simp add: Div_def del: of_int_mult)
  from simulate_eq [of "account c" "TotalStake ep + ?r" transcoders ?full]
  obtain hints where
    h: "simulateTranscoderPoolUpdate (account c) (TotalStake ep + ?r) transcoders ?full
      = Inr (hints, callerAfter (account c) (TotalStake ep + ?r) transcoders)"
    by blast
  have "Reward c = Submitted [] (RewardWithHintCall (PosPrev hints) (PosNext hints))"
    using assms d h by (simp add: Reward_def Let_def add.commute)
  with d h show ?thesis by blast
qed

text \<open>
  On \<open>chain1\<close>: 1000 mintable, a total stake of 100 and 230 bonded give the reward 434.
\<close>

theorem Reward_floor_witness:
  "CurrentRound chain1 = Inr 7
   \<and> GetTranscoderEarningsPoolForRound chain1 (account chain1) 7 = Inr pools0
   \<and> CurrentMintableTokens chain1 = Inr 1000
   \<and> GetTotalBonded chain1 = Inr 230
   \<and> (0 :: int) < 230
   \<and> TranscoderPool chain1 = Inr scenarioA
   \<and> GetTranscoderPoolMaxSize chain1 = Inr 3
   \<and> Div (1000 * TotalStake pools0) 230 = Some 434
   \<and> Reward chain1 = Submitted [] (RewardWithHintCall 0 11)"
proof -
  have h1: "CurrentRound chain1 = Inr 7" by (simp add: chain1_def chain0_def)
  have h2: "GetTranscoderEarningsPoolForRound chain1 (account chain1) 7 = Inr pools0"
    by (simp add: chain1_def chain0_def GetTranscoderEarningsPoolForRound_def pools0_def)
  have h3: "CurrentMintableTokens chain1 = Inr 1000" by (simp add: chain1_def chain0_def)
  have h4: "GetTotalBonded chain1 = Inr 230" by (simp add: chain1_def chain0_def)
  have h5: "(0 :: int) < 230" by simp
  have h6: "TranscoderPool chain1 = Inr scenarioA" by (simp add: chain1_def chain0_def)
  have h7: "GetTranscoderPoolMaxSize chain1 = Inr 3" by (simp add: chain1_def chain0_def)
  have fl: "\<lfloor>real_of_int (1000 * TotalStake pools0) / real_of_int 230\<rfloor> = 434"
    by (simp add: pools0_def)
  have full: "(int (length (elems scenarioA)) = Int64 3) = True"
    by (simp add: scenarioA_def Int64_def)
  have sim: "simulateTranscoderPoolUpdate (account chain1) (TotalStake pools0 + 434) scenarioA True
      = Inr (\<lparr>PosPrev = 0, PosNext = 11\<rparr>,
             \<lparr>elems = [\<lparr>Address = 10, DelegatedStake = 534\<rparr>, \<lparr>Address = 11, DelegatedStake = 80\<rparr>,
                       \<lparr>Address = 12, DelegatedStake = 50\<rparr>], spare = []\<rparr>)"
    by (simp add: chain1_def chain0_def pools0_def scenarioA_def sim_defs)
  from Reward_floor [OF h1 h2 h3 h4 h5 h6 h7]
  have "Div (1000 * TotalStake pools0) 230 = Some 434
      \<and> Reward chain1 = Submitted [] (RewardWithHintCall 0 11)"
    unfolding fl full sim by auto
  with h1 h2 h3 h4 h5 h6 h7 show ?thesis by simp
qed

text \<open>
  Claim C7. When \<^verbatim>\<open>Reward\<close> reads a total bonded stake of zero, it returns the error
  \<^verbatim>\<open>no rewards to be minted\<close> with no transaction submitted; the pool is not read and no
  hints are computed, whatever the chain holds.
\<close>

theorem Reward_nothing_to_mint:
  assumes "CurrentRound c = Inr currentRound"
    and "GetTranscoderEarningsPoolForRound c (account c) currentRound = Inr ep"
    and "CurrentMintableTokens c = Inr M"
    and "GetTotalBonded c = Inr 0"
  shows "Reward c = Failed [] ''no rewards to be minted''"
  using assms by (simp add: Reward_def)

text \<open>
  On \<open>chain2\<close> nothing is bonded.
\<close>

theorem Reward_nothing_to_mint_witness:
  "CurrentRound chain2 = Inr 7
   \<and> GetTranscoderEarningsPoolForRound chain2 (account chain2) 7 = Inr pools0
   \<and> CurrentMintableTokens chain2 = Inr 1000
   \<and> GetTotalBonded chain2 = Inr 0
   \<and> Reward chain2 = Failed [] ''no rewards to be minted''"
proof -
  have h1: "CurrentRound chain2 = Inr 7" by (simp add: chain2_def chain1_def chain0_def)
  have h2: "GetTranscoderEarningsPoolForRound chain2 (account chain2) 7 = Inr pools0"
    by (simp add: chain2_def chain1_def chain0_def GetTranscoderEarningsPoolForRound_def pools0_def)
  have h3: "CurrentMintableTokens chain2 = Inr 1000" by (simp add: chain2_def chain1_def chain0_def)
  have h4: "GetTotalBonded chain2 = Inr 0" by (simp add: chain2_def)
  from Reward_nothing_to_mint [OF h1 h2 h3 h4] h1 h2 h3 h4 show ?thesis by simp
qed

text \<open>
  Claim C8. Once the reads before them have succeeded: a pending-stake or pending-fees
  read that fails with \<open>noCheckpoint\<close> gives the field the value -1 and no error (as
  long as the other of the two reads does not fail for another reason), and a read that
  fails with any other error makes \<^verbatim>\<open>GetDelegator\<close> return that error.
\<close>

theorem GetDelegator_sentinel:
  assumes "Session_GetDelegator c addr = Inr dInfo"
    and "DelegatorStatus c addr = Inr dStatus"
    and "ParseDelegatorStatus c dStatus = Inr status"
    and "CurrentRound c = Inr currentRound"
  shows "(PendingStake c addr currentRound = Inl noCheckpoint \<and>
            (PendingFees c addr currentRound = Inr f \<or>
             PendingFees c addr currentRound = Inl noCheckpoint) \<longrightarrow>
          (\<exists>d. GetDelegator c addr = Inr d \<and> PendingStake' d = - 1))
       \<and> ((PendingStake c addr currentRound = Inr v \<or>
            PendingStake c addr currentRound = Inl noCheckpoint) \<and>
           PendingFees c addr currentRound = Inl noCheckpoint \<longrightarrow>
          (\<exists>d. GetDelegator c addr = Inr d \<and> PendingFees' d = - 1))
       \<and> (PendingStake c addr currentRound = Inl e \<and> e \<noteq> noCheckpoint \<longrightarrow>
          GetDelegator c addr = Inl e)
       \<and> ((PendingStake c addr currentRound = Inr v \<or>
            PendingStake c addr currentRound = Inl noCheckpoint) \<and>
           PendingFees c addr currentRound = Inl e \<and> e \<noteq> noCheckpoint \<longrightarrow>
          GetDelegator c addr = Inl e)"
  using assms by (auto simp: GetDelegator_def noCheckpoint_def)

text \<open>
  On \<open>chain0\<close> the pending-fees read fails with \<open>noCheckpoint\<close>; on \<open>chain3\<close> the
  pending-stake read fails with another error.
\<close>

theorem GetDelegator_sentinel_witness:
  "Session_GetDelegator chain0 1 = Inr info0
   \<and> DelegatorStatus chain0 1 = Inr 1
   \<and> ParseDelegatorStatus chain0 1 = Inr Bonded
   \<and> CurrentRound chain0 = Inr 7
   \<and> PendingStake chain0 1 7 = Inr 30
   \<and> PendingFees chain0 1 7 = Inl noCheckpoint
   \<and> GetDelegator chain0 1 = Inr delegator0
   \<and> PendingFees' delegator0 = - 1
   \<and> Session_GetDelegator chain3 1 = Inr info0
   \<and> DelegatorStatus chain3 1 = Inr 1
   \<and> ParseDelegatorStatus chain3 1 = Inr Bonded
   \<and> CurrentRound chain3 = Inr 7
   \<and> PendingStake chain3 1 7 = Inl ''execution reverted''
   \<and> ''execution reverted'' \<noteq> noCheckpoint
   \<and> GetDelegator chain3 1 = Inl ''execution reverted''"
proof -
  have a1: "Session_GetDelegator chain0 1 = Inr info0" by (simp add: chain0_def info0_def)
  have a2: "DelegatorStatus chain0 1 = Inr 1" by (simp add: chain0_def)
  have a3: "ParseDelegatorStatus chain0 1 = Inr Bonded" by (simp add: chain0_def)
  have a4: "CurrentRound chain0 = Inr 7" by (simp add: chain0_def)
  have a5: "PendingStake chain0 1 7 = Inr 30" by (simp add: chain0_def)
  have a6: "PendingFees chain0 1 7 = Inl noCheckpoint" by (simp add: chain0_def noCheckpoint_def)
  have b1: "Session_GetDelegator chain3 1 = Inr info0" by (simp add: chain3_def chain0_def info0_def)
  have b2: "DelegatorStatus chain3 1 = Inr 1" by (simp add: chain3_def chain0_def)
  have b3: "ParseDelegatorStatus chain3 1 = Inr Bonded" by (simp add: chain3_def chain0_def)
  have b4: "CurrentRound chain3 = Inr 7" by (simp add: chain3_def chain0_def)
  have b5: "PendingStake chain3 1 7 = Inl ''execution reverted''" by (simp add: chain3_def)
  have b6: "''execution reverted'' \<noteq> noCheckpoint" by (simp add: noCheckpoint_def)
  have d: "GetDelegator chain0 1 = Inr delegator0"
    by (simp add: chain0_def GetDelegator_def delegator0_def)
  from GetDelegator_sentinel [OF a1 a2 a3 a4, of 30 30 "''x''"] a5 a6 d
  have s: "PendingFees' delegator0 = - 1" by auto
  from GetDelegator_sentinel [OF b1 b2 b3 b4, of 0 0 "''execution reverted''"] b5 b6
  have p: "GetDelegator chain3 1 = Inl ''execution reverted''" by simp
  from a1 a2 a3 a4 a5 a6 d s b1 b2 b3 b4 b5 b6 p show ?thesis by simp
qed

text \<open>
  Claim C9. While \<^verbatim>\<open>CheckTx\<close> receives receipts of other transactions only, it discards
  them and keeps waiting. After them, a value on the error channel ends the wait with that
  value; a receipt of the awaited transaction ends it with the error of the receipt if it
  has one, else with \<^verbatim>\<open>transaction failed\<close> and the mined hash if the status is 0, else
  with \<^verbatim>\<open>nil\<close>; one more receipt of another transaction is discarded in its turn.
\<close>

theorem CheckTx_outcome:
  assumes "\<forall>ev \<in> set earlier. otherReceipt tx ev"
  shows "CheckTx hex tx earlier = Waiting
       \<and> CheckTx hex tx (earlier @ ErrEvent e # later) = Done e
       \<and> CheckTx hex tx (earlier @ ReceiptEvent receipt # later) =
           (if Hash tx \<noteq> originTxHash receipt then CheckTx hex tx later
            else if err receipt \<noteq> None then Done (err receipt)
            else if Status receipt = 0 then
              Done (Some (''transaction failed txHash='' @ hex (TxHash receipt)))
            else Done None)"
  using CheckTx_discard [OF assms, of hex "[]"]
    CheckTx_discard [OF assms, of hex "ErrEvent e # later"]
    CheckTx_discard [OF assms, of hex "ReceiptEvent receipt # later"]
  by simp

text \<open>
  A receipt of another transaction, then an error of the subscription or the receipt of
  the failed transaction.
\<close>

theorem CheckTx_outcome_witness:
  "otherReceipt tx0 (ReceiptEvent foreign0)
   \<and> CheckTx (\<lambda>h. ''0x4e'') tx0 [ReceiptEvent foreign0] = Waiting
   \<and> CheckTx (\<lambda>h. ''0x4e'') tx0 [ReceiptEvent foreign0, ErrEvent (Some ''subscription closed'')]
       = Done (Some ''subscription closed'')
   \<and> CheckTx (\<lambda>h. ''0x4e'') tx0 [ReceiptEvent foreign0, ReceiptEvent failed0]
       = Done (Some ''transaction failed txHash=0x4e'')"
proof -
  have h: "\<forall>ev \<in> set [ReceiptEvent foreign0]. otherReceipt tx0 ev"
    by (simp add: otherReceipt_def tx0_def foreign0_def)
  from CheckTx_outcome [OF h, where hex = "\<lambda>h. ''0x4e''" and e = "Some ''subscription closed''"
      and later = "[]" and receipt = failed0] h
  show ?thesis by (simp add: tx0_def failed0_def)
qed

text \<open>
  Claim C10. \<^verbatim>\<open>simulateTranscoderPoolUpdate\<close> and \<^verbatim>\<open>findTranscoderHints\<close> are total
  functions of the model, in which every index and slice expression is checked as Go
  checks it, and they return hints on every input: no index or slice bound is ever out of
  range, whatever the pool (empty, with several entries of the target), the capacity and
  \<^verbatim>\<open>isFull\<close>.
\<close>

theorem simulate_never_panics:
  "(\<exists>hints caller. simulateTranscoderPoolUpdate del newStake s isFull = Inr (hints, caller))
   \<and> (\<exists>hints. findTranscoderHints del ts = Inr hints)"
proof -
  have f: "\<exists>hints. findTranscoderHints del xs = Inr hints" for xs
    unfolding findTranscoderHints_def using findLoop_total [of 0 xs xs del emptyHints] by simp
  from simulatedPool_eq [of del newStake s isFull] obtain sp where
    eq: "simulatedPool del newStake s isFull =
      Inr (\<lparr>elems = simulatedList del newStake (elems s) isFull, spare = sp\<rparr>,
           callerAfter del newStake s)" ..
  from f [of "simulatedList del newStake (elems s) isFull"] obtain h where
    "findTranscoderHints del (simulatedList del newStake (elems s) isFull) = Inr h" ..
  with eq have "simulateTranscoderPoolUpdate del newStake s isFull
      = Inr (h, callerAfter del newStake s)"
    by (simp add: simulateTranscoderPoolUpdate_def)
  with f show ?thesis by blast
qed

end
